theory Spec2Isabelle
  imports Main "HOL-Library.Char_ord" "HOL-Library.AList"
begin

section \<open>Strings\<close>

text \<open>
  JavaScript strings are modelled as Isabelle strings, whose characters are the first 256
  code points. The patterns and literals of the program are ASCII, and every character
  class below is given by ranges of characters.
\<close>

definition in_range :: "char \<Rightarrow> char \<Rightarrow> char \<Rightarrow> bool" where
  "in_range lo hi c = (lo \<le> c \<and> c \<le> hi)"

definition startsWith :: "string \<Rightarrow> string \<Rightarrow> bool" where
  "startsWith s pre = (take (length pre) s = pre)"

definition endsWith :: "string \<Rightarrow> string \<Rightarrow> bool" where
  "endsWith s suf = (length suf \<le> length s \<and> drop (length s - length suf) s = suf)"

text \<open>\<^verbatim>\<open>s.replace(/suf$/, new)\<close> for a literal suffix: the suffix is replaced when it is there.\<close>

definition replace_suffix :: "string \<Rightarrow> string \<Rightarrow> string \<Rightarrow> string" where
  "replace_suffix suf new s =
     (if endsWith s suf then take (length s - length suf) s @ new else s)"

text \<open>\<^verbatim>\<open>s.split(sep)\<close> where every separator is one character; the result is never empty.\<close>

fun split_when :: "(char \<Rightarrow> bool) \<Rightarrow> string \<Rightarrow> string list" where
  "split_when is_sep [] = [[]]"
| "split_when is_sep (c # cs) =
     (if is_sep c then [] # split_when is_sep cs
      else (case split_when is_sep cs of
              [] \<Rightarrow> [[c]]
            | x # xs \<Rightarrow> (c # x) # xs))"

fun join_with :: "string \<Rightarrow> string list \<Rightarrow> string" where
  "join_with sep [] = []"
| "join_with sep [x] = x"
| "join_with sep (x # y # ys) = x @ sep @ join_with sep (y # ys)"

definition is_backslash :: "char \<Rightarrow> bool" where
  "is_backslash c = (c = CHR 0x5C)"

definition is_slash :: "char \<Rightarrow> bool" where
  "is_slash c = (c = CHR ''/'')"

text \<open>\<^verbatim>\<open>s.replace(/\\/g, "/")\<close>\<close>

definition to_slashes :: "string \<Rightarrow> string" where
  "to_slashes s = map (\<lambda>c. if is_backslash c then CHR ''/'' else c) s"

text \<open>The characters \<^verbatim>\<open>trim()\<close> removes, among the first 256 code points.\<close>

definition is_space :: "char \<Rightarrow> bool" where
  "is_space c =
     (c \<in> set [CHR 0x09, CHR 0x0A, CHR 0x0B, CHR 0x0C, CHR 0x0D, CHR 0x20, CHR 0xA0])"

definition trim :: "string \<Rightarrow> string" where
  "trim s = rev (dropWhile is_space (rev (dropWhile is_space s)))"

text \<open>\<^verbatim>\<open>xs.indexOf(x)\<close>, with \<open>None\<close> for -1.\<close>

fun index_of :: "'a list \<Rightarrow> 'a \<Rightarrow> nat option" where
  "index_of [] x = None"
| "index_of (y # ys) x =
     (if y = x then Some 0 else (case index_of ys x of None \<Rightarrow> None | Some i \<Rightarrow> Some (Suc i)))"

text \<open>\<^verbatim>\<open>xs[i]\<close>, with \<open>None\<close> for \<^verbatim>\<open>undefined\<close> past the end.\<close>

definition at_index :: "'a list \<Rightarrow> nat \<Rightarrow> 'a option" where
  "at_index xs i = (if i < length xs then Some (xs ! i) else None)"

section \<open>Regular expressions\<close>

text \<open>
  The program uses regular expressions without groups that capture for later use, without
  look-around and without back-references, so a pattern denotes a set of strings and
  \<^verbatim>\<open>test\<close> decides membership. Patterns are values of \<open>re\<close>; an atom is a character class
  given by its ranges, together with the pattern's \<^verbatim>\<open>i\<close> flag. Matching is by derivatives.
\<close>

type_synonym char_class = "(char \<times> char) list"

definition in_class :: "char_class \<Rightarrow> char \<Rightarrow> bool" where
  "in_class ranges c = list_ex (\<lambda>(lo, hi). in_range lo hi c) ranges"

text \<open>
  Case-insensitive matching compares canonical forms, which for ASCII are the upper-case
  letters: a character matches a class when its canonical form is the canonical form of a
  member of the class.
\<close>

definition canonicalize :: "char \<Rightarrow> char" where
  "canonicalize c =
     (if in_range CHR ''a'' CHR ''z'' c then char_of (of_char c - (32::nat)) else c)"

definition to_lower :: "char \<Rightarrow> char" where
  "to_lower c =
     (if in_range CHR ''A'' CHR ''Z'' c then char_of (of_char c + (32::nat)) else c)"

definition atom_match :: "bool \<Rightarrow> char_class \<Rightarrow> char \<Rightarrow> bool" where
  "atom_match ignoreCase ranges c =
     (if ignoreCase
      then in_class ranges (canonicalize c) \<or> in_class ranges (to_lower (canonicalize c))
      else in_class ranges c)"

datatype re = Zero | One | Atom bool char_class | Alt re re | Seq re re | Star re

fun nullable :: "re \<Rightarrow> bool" where
  "nullable Zero = False"
| "nullable One = True"
| "nullable (Atom ic cs) = False"
| "nullable (Alt r s) = (nullable r \<or> nullable s)"
| "nullable (Seq r s) = (nullable r \<and> nullable s)"
| "nullable (Star r) = True"

fun alt :: "re \<Rightarrow> re \<Rightarrow> re" where
  "alt Zero s = s"
| "alt r Zero = r"
| "alt r s = Alt r s"

fun seq :: "re \<Rightarrow> re \<Rightarrow> re" where
  "seq Zero s = Zero"
| "seq One s = s"
| "seq r s = Seq r s"

fun deriv :: "char \<Rightarrow> re \<Rightarrow> re" where
  "deriv c Zero = Zero"
| "deriv c One = Zero"
| "deriv c (Atom ic cs) = (if atom_match ic cs c then One else Zero)"
| "deriv c (Alt r s) = alt (deriv c r) (deriv c s)"
| "deriv c (Seq r s) =
     (if nullable r then alt (seq (deriv c r) s) (deriv c s) else seq (deriv c r) s)"
| "deriv c (Star r) = seq (deriv c r) (Star r)"

text \<open>A pattern anchored at both ends, \<^verbatim>\<open>/^r$/.test(s)\<close>.\<close>

fun re_full :: "re \<Rightarrow> string \<Rightarrow> bool" where
  "re_full r [] = nullable r"
| "re_full r (c # cs) = re_full (deriv c r) cs"

definition Plus :: "re \<Rightarrow> re" where
  "Plus r = Seq r (Star r)"

definition Opt :: "re \<Rightarrow> re" where
  "Opt r = Alt r One"

fun Lit :: "bool \<Rightarrow> string \<Rightarrow> re" where
  "Lit ic [] = One"
| "Lit ic (c # cs) = Seq (Atom ic [(c, c)]) (Lit ic cs)"

fun Rep :: "nat \<Rightarrow> re \<Rightarrow> re" where
  "Rep 0 r = One"
| "Rep (Suc n) r = Seq r (Rep n r)"

definition any_char :: re where
  "any_char = Atom False [(CHR 0x00, CHR 0xFF)]"

text \<open>A pattern without anchors, \<^verbatim>\<open>/r/.test(s)\<close>: some substring matches.\<close>

definition re_search :: "re \<Rightarrow> string \<Rightarrow> bool" where
  "re_search r s = re_full (Seq (Star any_char) (Seq r (Star any_char))) s"

definition digit_class :: char_class where
  "digit_class = [(CHR ''0'', CHR ''9'')]"

definition ident_class :: char_class where
  "ident_class = [(CHR ''0'', CHR ''9''), (CHR ''A'', CHR ''Z''), (CHR ''a'', CHR ''z''),
                  (CHR ''.'', CHR ''.''), (CHR ''-'', CHR ''-'')]"

definition hex_class :: char_class where
  "hex_class = [(CHR ''0'', CHR ''9''), (CHR ''a'', CHR ''f'')]"

text \<open>\<^verbatim>\<open>/^(\d+)\.(\d+)\.(\d+)(?:-([0-9A-Za-z.-]+))?(?:\+([0-9A-Za-z.-]+))?$/\<close>\<close>

definition SEMVER_RE :: re where
  "SEMVER_RE =
     Seq (Plus (Atom False digit_class)) (Seq (Lit False ''.'')
    (Seq (Plus (Atom False digit_class)) (Seq (Lit False ''.'')
    (Seq (Plus (Atom False digit_class))
    (Seq (Opt (Seq (Lit False ''-'') (Plus (Atom False ident_class))))
         (Opt (Seq (Lit False ''+'') (Plus (Atom False ident_class)))))))))"

text \<open>\<^verbatim>\<open>/^sha256:[0-9a-f]{64}$/i\<close>\<close>

definition SHA256_RE :: re where
  "SHA256_RE = Seq (Lit True ''sha256:'') (Rep 64 (Atom True hex_class))"

text \<open>\<^verbatim>\<open>/versions[\\/]/\<close>\<close>

definition VERSIONS_RE :: re where
  "VERSIONS_RE = Seq (Lit False ''versions'') (Atom False [(CHR 0x5C, CHR 0x5C), (CHR ''/'', CHR ''/'')])"

section \<open>Values, errors and the environment\<close>

text \<open>
  A parsed JSON document. Reading a property gives \<open>None\<close> for \<^verbatim>\<open>undefined\<close>. The program
  reads only the properties \<^verbatim>\<open>id\<close>, \<^verbatim>\<open>name\<close>, \<^verbatim>\<open>modality\<close>, \<^verbatim>\<open>owner\<close>, \<^verbatim>\<open>createdAt\<close>, \<^verbatim>\<open>version\<close>,
  \<^verbatim>\<open>modelId\<close>, \<^verbatim>\<open>artifact\<close> and \<^verbatim>\<open>digest\<close>, which only an object can have; the keys of a parsed
  object are distinct.
\<close>

datatype json =
    JNull
  | JBool bool
  | JNum int
  | JStr string
  | JArr "json list"
  | JObj "(string \<times> json) list"

fun get :: "json \<Rightarrow> string \<Rightarrow> json option" where
  "get (JObj kvs) k = map_of kvs k"
| "get v k = None"

text \<open>
  What the program can throw: an \<^verbatim>\<open>Error\<close> it builds itself, the \<^verbatim>\<open>TypeError\<close> of a property
  read on \<^verbatim>\<open>null\<close> or of a path that is \<^verbatim>\<open>undefined\<close>, and the errors of the file system with
  their code.
\<close>

datatype error = Error string | TypeError string | SystemError string

fun message :: "error \<Rightarrow> string" where
  "message (Error msg) = msg"
| "message (TypeError msg) = msg"
| "message (SystemError code) = code"

text \<open>
  The file system is a finite tree, the tree of the working directory, which is also the
  root directory \<^verbatim>\<open>/\<close>. A directory lists its entries in the order \<^verbatim>\<open>readdirSync\<close> returns them.
\<close>

datatype node = File string | Dir "(string \<times> node) list"

text \<open>
  The environment of a run: the file system, and the library functions whose results the
  program only passes on. \<open>Date_parse_finite s\<close> is \<^verbatim>\<open>Number.isFinite(Date.parse(s))\<close>,
  \<open>now_iso\<close> is \<^verbatim>\<open>new Date().toISOString()\<close>, \<open>JSON_stringify v\<close> is
  \<^verbatim>\<open>JSON.stringify(v, null, 2)\<close>, \<open>JSON_parse s\<close> is \<open>None\<close> when \<^verbatim>\<open>JSON.parse(s)\<close> throws and
  \<open>sha256_hex\<close> is the hex digest of \<^verbatim>\<open>createHash("sha256")\<close>.
\<close>

record world =
  fs :: node
  JSON_parse :: "string \<Rightarrow> json option"
  JSON_stringify :: "json \<Rightarrow> string"
  Date_parse_finite :: "string \<Rightarrow> bool"
  now_iso :: string
  sha256_hex :: "string \<Rightarrow> string"

section \<open>Paths\<close>

text \<open>
  \<^verbatim>\<open>node:path\<close> on a POSIX system. Normalising drops empty and \<^verbatim>\<open>.\<close> segments and resolves
  \<^verbatim>\<open>..\<close> against the segment before it; above the start of a relative path \<^verbatim>\<open>..\<close> is kept,
  above the root it is dropped.
\<close>

definition norm_step :: "bool \<Rightarrow> string list \<Rightarrow> string \<Rightarrow> string list" where
  "norm_step allowAboveRoot res seg =
     (if seg = [] \<or> seg = ''.'' then res
      else if seg = ''..'' then
        (if res \<noteq> [] \<and> last res \<noteq> ''..'' then butlast res
         else if allowAboveRoot then res @ [''..''] else res)
      else res @ [seg])"

definition normalizeString :: "string \<Rightarrow> bool \<Rightarrow> string list" where
  "normalizeString path allowAboveRoot =
     foldl (norm_step allowAboveRoot) [] (split_when is_slash path)"

definition normalize :: "string \<Rightarrow> string" where
  "normalize path =
     (if path = [] then ''.''
      else
        (let isAbsolute = is_slash (hd path);
             trailingSeparator = is_slash (last path);
             p = join_with ''/'' (normalizeString path (\<not> isAbsolute))
         in if p = [] then (if isAbsolute then ''/'' else if trailingSeparator then ''./'' else ''.'')
            else (if isAbsolute then ''/'' else []) @ p @ (if trailingSeparator then ''/'' else [])))"

definition path_join :: "string list \<Rightarrow> string" where
  "path_join parts =
     (let joined = join_with ''/'' (filter (\<lambda>p. p \<noteq> []) parts)
      in if joined = [] then ''.'' else normalize joined)"

definition dirname :: "string \<Rightarrow> string" where
  "dirname path =
     (let r = dropWhile (\<lambda>c. \<not> is_slash c) (dropWhile is_slash (rev path));
          stop = length r - 1
      in if length r \<le> 1 then (if path \<noteq> [] \<and> is_slash (hd path) then ''/'' else ''.'')
         else if is_slash (hd path) \<and> stop = 1 then ''//''
         else take stop path)"

section \<open>File system\<close>

text \<open>
  The limits of the system: a name has at most 255 bytes and a path fewer than 4096. A
  character above 127 takes two bytes in the UTF-8 form that the system sees.
\<close>

definition byte_length :: "string \<Rightarrow> nat" where
  "byte_length s = sum_list (map (\<lambda>c. if (of_char c :: nat) < 128 then 1 else 2) s)"

definition NAME_MAX :: nat where
  "NAME_MAX = 255"

definition PATH_MAX :: nat where
  "PATH_MAX = 4096"

definition name_too_long :: "string \<Rightarrow> bool" where
  "name_too_long s = (NAME_MAX < byte_length s)"

definition path_too_long :: "string \<Rightarrow> bool" where
  "path_too_long path = (PATH_MAX \<le> byte_length path)"

text \<open>The segments by which the system resolves a path, from the root of the tree.\<close>

definition resolve :: "string \<Rightarrow> string list" where
  "resolve path = normalizeString path False"

fun lookup :: "node \<Rightarrow> string list \<Rightarrow> error + node" where
  "lookup n [] = Inr n"
| "lookup (File c) (s # ss) = Inl (SystemError ''ENOTDIR'')"
| "lookup (Dir es) (s # ss) =
     (if name_too_long s then Inl (SystemError ''ENAMETOOLONG'')
      else
        (case map_of es s of
           None \<Rightarrow> Inl (SystemError ''ENOENT'')
         | Some n \<Rightarrow> lookup n ss))"

definition statSync :: "world \<Rightarrow> string \<Rightarrow> error + node" where
  "statSync w path =
     (if path_too_long path then Inl (SystemError ''ENAMETOOLONG'')
      else lookup (fs w) (resolve path))"


fun isFile :: "node \<Rightarrow> bool" where
  "isFile (File c) = True"
| "isFile (Dir es) = False"

definition readFileSync :: "world \<Rightarrow> string \<Rightarrow> error + string" where
  "readFileSync w path =
     (if path_too_long path then Inl (SystemError ''ENAMETOOLONG'')
      else
        (case lookup (fs w) (resolve path) of
           Inl e \<Rightarrow> Inl e
         | Inr (Dir es) \<Rightarrow> Inl (SystemError ''EISDIR'')
         | Inr (File c) \<Rightarrow> Inr c))"

definition readdirSync :: "world \<Rightarrow> string \<Rightarrow> error + (string \<times> node) list" where
  "readdirSync w path =
     (if path_too_long path then Inl (SystemError ''ENAMETOOLONG'')
      else
        (case lookup (fs w) (resolve path) of
           Inl e \<Rightarrow> Inl e
         | Inr (File c) \<Rightarrow> Inl (SystemError ''ENOTDIR'')
         | Inr (Dir es) \<Rightarrow> Inr es))"

text \<open>
  \<^verbatim>\<open>mkdirSync(p, { recursive: true })\<close>: the directories missing on the way are created; a
  name that is too long cannot be looked up or created.
\<close>

fun mkdirp :: "string list \<Rightarrow> node \<Rightarrow> error + node" where
  "mkdirp [] (Dir es) = Inr (Dir es)"
| "mkdirp [] (File c) = Inl (SystemError ''EEXIST'')"
| "mkdirp (s # ss) (File c) = Inl (SystemError ''ENOTDIR'')"
| "mkdirp (s # ss) (Dir es) =
     (if name_too_long s then Inl (SystemError ''ENAMETOOLONG'')
      else
        (case map_of es s of
           None \<Rightarrow>
             (case mkdirp ss (Dir []) of
                Inl e \<Rightarrow> Inl e
              | Inr n \<Rightarrow> Inr (Dir (es @ [(s, n)])))
         | Some sub \<Rightarrow>
             (case mkdirp ss sub of
                Inl e \<Rightarrow> Inl e
              | Inr n \<Rightarrow> Inr (Dir (AList.update s n es)))))"

text \<open>\<^verbatim>\<open>writeFileSync(path, content)\<close>: the file is created or overwritten; its directory must exist.\<close>

fun put_file :: "string list \<Rightarrow> string \<Rightarrow> node \<Rightarrow> error + node" where
  "put_file [] content n = Inl (SystemError ''EISDIR'')"
| "put_file (s # ss) content (File c) = Inl (SystemError ''ENOTDIR'')"
| "put_file [s] content (Dir es) =
     (if name_too_long s then Inl (SystemError ''ENAMETOOLONG'')
      else
        (case map_of es s of
           None \<Rightarrow> Inr (Dir (es @ [(s, File content)]))
         | Some (Dir sub) \<Rightarrow> Inl (SystemError ''EISDIR'')
         | Some (File c) \<Rightarrow> Inr (Dir (AList.update s (File content) es))))"
| "put_file (s # t # ss) content (Dir es) =
     (if name_too_long s then Inl (SystemError ''ENAMETOOLONG'')
      else
        (case map_of es s of
           None \<Rightarrow> Inl (SystemError ''ENOENT'')
         | Some sub \<Rightarrow>
             (case put_file (t # ss) content sub of
                Inl e \<Rightarrow> Inl e
              | Inr n \<Rightarrow> Inr (Dir (AList.update s n es)))))"

definition ensureDir :: "world \<Rightarrow> string \<Rightarrow> error + world" where
  "ensureDir w p =
     (if path_too_long p then Inl (SystemError ''ENAMETOOLONG'')
      else
        (case mkdirp (resolve p) (fs w) of
           Inl e \<Rightarrow> Inl e
         | Inr n \<Rightarrow> Inr (w\<lparr>fs := n\<rparr>)))"

definition writeFileSync :: "world \<Rightarrow> string \<Rightarrow> string \<Rightarrow> error + world" where
  "writeFileSync w path content =
     (if path_too_long path then Inl (SystemError ''ENAMETOOLONG'')
      else
        (case put_file (resolve path) content (fs w) of
           Inl e \<Rightarrow> Inl e
         | Inr n \<Rightarrow> Inr (w\<lparr>fs := n\<rparr>)))"

definition write_file :: "world \<Rightarrow> string \<Rightarrow> string \<Rightarrow> error option \<times> world" where
  "write_file w path content =
     (case ensureDir w (dirname path) of
        Inl e \<Rightarrow> (Some e, w)
      | Inr w' \<Rightarrow>
          (case writeFileSync w' path content of
             Inl e \<Rightarrow> (Some e, w')
           | Inr w'' \<Rightarrow> (None, w'')))"

text \<open>
  \<open>walk\<close>: the files below a directory, in listing order. \<open>walk_entries dir es out\<close> is the
  loop over the entries \<open>es\<close> of the directory at \<open>dir\<close>, with the files pushed so far.
\<close>

fun walk_entries :: "string \<Rightarrow> (string \<times> node) list \<Rightarrow> string list \<Rightarrow> string list" where
  "walk_entries dir [] out = out"
| "walk_entries dir ((name, Dir sub) # es) out =
     walk_entries dir es (walk_entries (path_join [dir, name]) sub out)"
| "walk_entries dir ((name, File c) # es) out =
     walk_entries dir es (out @ [path_join [dir, name]])"

definition walk :: "world \<Rightarrow> string \<Rightarrow> error + string list" where
  "walk w dir =
     (case readdirSync w dir of
        Inl e \<Rightarrow> Inl e
      | Inr es \<Rightarrow> Inr (walk_entries dir es []))"

definition parseJson :: "world \<Rightarrow> string \<Rightarrow> error + json" where
  "parseJson w path =
     (case readFileSync w path of
        Inl e \<Rightarrow> Inl (Error (''invalid_json: '' @ path))
      | Inr content \<Rightarrow>
          (case JSON_parse w content of
             None \<Rightarrow> Inl (Error (''invalid_json: '' @ path))
           | Some v \<Rightarrow> Inr v))"

section \<open>The command line\<close>

text \<open>
  How a command handler ends: it throws, it calls \<open>die\<close> (the message goes to the error
  stream and the process exits with 1), or it returns its exit code after the lines it
  logged.
\<close>

datatype exit = Throw error | Die string | Return "string list" nat

record outcome =
  stdout :: "string list"
  stderr :: "string list"
  exit_code :: nat

definition help_text :: string where
  "help_text = concat (map (\<lambda>l. l @ [CHR 0x0A])
     ['''',
      ''thynkai (toolkits)'',
      '''',
      ''Usage:'',
      ''  thynkai <command> [subcommand] [options]'',
      '''',
      ''Commands:'',
      ''  init model         Scaffold a model entry (for thynkai-models)'',
      ''  validate models    Validate a models registry tree'',
      ''  digest             Compute sha256 digest for a local file'',
      ''  publish            Print a dry-run summary of changed files'',
      '''',
      ''Examples:'',
      ''  thynkai init model --modality text --slug my-model --id thynkai/my-model'',
      ''  thynkai validate models --root .'',
      ''  thynkai digest --file ./artifact.bin'',
      ''  thynkai publish --root . --since HEAD~1''])"

definition argValue :: "string list \<Rightarrow> string \<Rightarrow> string option \<Rightarrow> string option" where
  "argValue args name fallback =
     (case index_of args name of
        None \<Rightarrow> fallback
      | Some i \<Rightarrow> (case at_index args (i + 1) of None \<Rightarrow> fallback | Some v \<Rightarrow> Some v))"

definition hasFlag :: "string list \<Rightarrow> string \<Rightarrow> bool" where
  "hasFlag args name = (name \<in> set args)"

definition isIsoDate :: "world \<Rightarrow> string \<Rightarrow> bool" where
  "isIsoDate w s = Date_parse_finite w s"

definition MODALITIES :: "string list" where
  "MODALITIES = [''text'', ''vision'', ''multimodal'']"

text \<open>\<^verbatim>\<open>typeof x === "string"\<close>, with the string.\<close>

fun as_string :: "json option \<Rightarrow> string option" where
  "as_string (Some (JStr s)) = Some s"
| "as_string x = None"

text \<open>\<^verbatim>\<open>x && typeof x === "object"\<close>\<close>

fun is_object :: "json option \<Rightarrow> bool" where
  "is_object (Some (JObj kvs)) = True"
| "is_object (Some (JArr vs)) = True"
| "is_object x = False"

text \<open>A path that is \<^verbatim>\<open>undefined\<close> makes \<^verbatim>\<open>join\<close> throw.\<close>

definition invalid_path :: error where
  "invalid_path = TypeError ''The \"path\" argument must be of type string. Received undefined''"

definition null_read :: "string \<Rightarrow> error" where
  "null_read k =
     TypeError (''Cannot read properties of null (reading '' @ [CHR 0x27] @ k @ [CHR 0x27] @ '')'')"

subsection \<open>\<^verbatim>\<open>init model\<close>\<close>

definition opt_field :: "string \<Rightarrow> string option \<Rightarrow> (string \<times> json) list" where
  "opt_field k v = (case v of None \<Rightarrow> [] | Some s \<Rightarrow> [(k, JStr s)])"

definition modelJson ::
  "string \<Rightarrow> string option \<Rightarrow> string \<Rightarrow> string option \<Rightarrow> string option \<Rightarrow> string \<Rightarrow> string \<Rightarrow> json" where
  "modelJson m_id name modality owner ownerName createdAt version =
     JObj ([(''id'', JStr m_id)] @ opt_field ''name'' name @
       [(''modality'', JStr modality),
        (''description'', JStr ''TODO: add description''),
        (''owner'', JObj (opt_field ''contributorId'' owner @ opt_field ''displayName'' ownerName)),
        (''createdAt'', JStr createdAt),
        (''version'', JStr version),
        (''tags'', JArr [JStr ''todo'']),
        (''links'', JObj [(''repo'', JStr ''TODO'')])])"

definition versionJson :: "string \<Rightarrow> string \<Rightarrow> string \<Rightarrow> json" where
  "versionJson m_id version releasedAt =
     JObj [(''modelId'', JStr m_id),
       (''version'', JStr version),
       (''releasedAt'', JStr releasedAt),
       (''artifact'', JObj
          [(''uri'', JStr ''TODO''),
           (''digest'', JStr (''sha256:'' @ replicate 64 CHR ''0'')),
           (''builtWith'', JObj [(''framework'', JStr ''TODO''), (''runtime'', JStr ''TODO''),
              (''notes'', JStr ''TODO'')])]),
       (''benchmarks'', JArr [])]"

text \<open>The performance notes; the dash of the title is the three bytes of its UTF-8 form.\<close>

definition performance_md :: "string \<Rightarrow> string \<Rightarrow> string" where
  "performance_md m_id createdAt =
     ''# Performance notes '' @ [CHR 0xE2, CHR 0x80, CHR 0x94] @ '' '' @ m_id @ [CHR 0x0A, CHR 0x0A] @
     ''- Benchmark: TODO'' @ [CHR 0x0A] @
     ''- Date: '' @ take 10 createdAt @ [CHR 0x0A] @
     ''- Environment: TODO'' @ [CHR 0x0A] @
     ''- Report: TODO'' @ [CHR 0x0A, CHR 0x0A] @
     ''Notes:'' @ [CHR 0x0A] @
     ''- Keep it factual and reproducible.'' @ [CHR 0x0A]"

definition scaffold ::
  "world \<Rightarrow> string \<Rightarrow> json \<Rightarrow> json \<Rightarrow> string \<Rightarrow> string \<Rightarrow> exit \<times> world" where
  "scaffold w base mj vj version perf =
     (case write_file w (path_join [base, ''model.json'']) (JSON_stringify w mj @ [CHR 0x0A]) of
        (Some e, w1) \<Rightarrow> (Throw e, w1)
      | (None, w1) \<Rightarrow>
     (case write_file w1 (path_join [base, ''versions'', version @ ''.json''])
             (JSON_stringify w1 vj @ [CHR 0x0A]) of
        (Some e, w2) \<Rightarrow> (Throw e, w2)
      | (None, w2) \<Rightarrow>
     (case write_file w2 (path_join [base, ''PERFORMANCE.md'']) perf of
        (Some e, w3) \<Rightarrow> (Throw e, w3)
      | (None, w3) \<Rightarrow> (Return [''Scaffolded: '' @ base] 0, w3))))"

definition cmdInitModel :: "world \<Rightarrow> string list \<Rightarrow> exit \<times> world" where
  "cmdInitModel w args =
     (let modality = argValue args ''--modality'' None;
          slug = argValue args ''--slug'' None;
          m_id = argValue args ''--id'' None;
          name = argValue args ''--name''
                   (Some (case slug of None \<Rightarrow> ''New Model''
                          | Some s \<Rightarrow> if s \<noteq> [] then s else ''New Model''));
          owner = argValue args ''--owner'' (Some ''contrib:unknown'');
          ownerName = argValue args ''--owner-name'' (Some ''Unknown'');
          version = argValue args ''--version'' (Some ''0.1.0'')
      in
      (case modality of
         None \<Rightarrow> (Die ''init model: --modality must be one of text|vision|multimodal'', w)
       | Some md \<Rightarrow>
      if md = [] \<or> md \<notin> set MODALITIES
      then (Die ''init model: --modality must be one of text|vision|multimodal'', w)
      else
      (case slug of
         None \<Rightarrow> (Die ''init model: --slug is required'', w)
       | Some sl \<Rightarrow>
      if sl = [] then (Die ''init model: --slug is required'', w)
      else
      (case m_id of
         None \<Rightarrow> (Die ''init model: --id is required (recommended org/name)'', w)
       | Some i \<Rightarrow>
      if i = [] then (Die ''init model: --id is required (recommended org/name)'', w)
      else
      (case version of
         None \<Rightarrow> (Die ''init model: --version must be SemVer'', w)
       | Some v \<Rightarrow>
      if v = [] \<or> \<not> re_full SEMVER_RE v then (Die ''init model: --version must be SemVer'', w)
      else
      (case argValue args ''--root'' (Some ''.'') of
         None \<Rightarrow> (Throw invalid_path, w)
       | Some root \<Rightarrow>
           (let base = path_join [root, ''models'', md, sl];
                createdAt = now_iso w;
                releasedAt = createdAt
            in scaffold w base (modelJson i name md owner ownerName createdAt v)
                 (versionJson i v releasedAt) v (performance_md i createdAt))))))))"

subsection \<open>\<^verbatim>\<open>validate models\<close>\<close>

text \<open>A \<^verbatim>\<open>for\<close> loop whose body may throw: the first error ends it.\<close>

fun for_each :: "('a \<Rightarrow> error + unit) \<Rightarrow> 'a list \<Rightarrow> error + unit" where
  "for_each body [] = Inr ()"
| "for_each body (x # xs) = (case body x of Inl e \<Rightarrow> Inl e | Inr u \<Rightarrow> for_each body xs)"

text \<open>\<^verbatim>\<open>v.artifact?.digest\<close>\<close>

definition artifact_digest :: "json \<Rightarrow> json option" where
  "artifact_digest v =
     (case get v ''artifact'' of
        None \<Rightarrow> None
      | Some JNull \<Rightarrow> None
      | Some a \<Rightarrow> get a ''digest'')"

definition versionFromFile :: "string \<Rightarrow> string" where
  "versionFromFile vf = replace_suffix ''.json'' [] (last (split_when is_slash vf))"

text \<open>The body of the loop over the version files of one model.\<close>

definition validate_version :: "world \<Rightarrow> string \<Rightarrow> string \<Rightarrow> error + unit" where
  "validate_version w m_id vf =
     (case parseJson w vf of
        Inl e \<Rightarrow> Inl e
      | Inr v \<Rightarrow>
     if v = JNull then Inl (null_read ''modelId'')
     else if get v ''modelId'' \<noteq> Some (JStr m_id)
     then Inl (Error (''version.modelId mismatch: '' @ vf))
     else
     (case as_string (get v ''version'') of
        None \<Rightarrow> Inl (Error (''version.version invalid: '' @ vf))
      | Some v_version \<Rightarrow>
     if \<not> re_full SEMVER_RE v_version
     then Inl (Error (''version.version invalid: '' @ vf))
     else if versionFromFile vf \<noteq> v_version
     then Inl (Error (''version filename mismatch: '' @ vf))
     else
     (case artifact_digest v of
        None \<Rightarrow> Inr ()
      | Some d \<Rightarrow>
          (case as_string (Some d) of
             None \<Rightarrow> Inl (Error (''artifact.digest invalid: '' @ vf))
           | Some digest \<Rightarrow>
               if re_full SHA256_RE digest then Inr ()
               else Inl (Error (''artifact.digest invalid: '' @ vf))))))"

definition folderModality :: "string \<Rightarrow> string option" where
  "folderModality mf =
     (let parts = split_when (\<lambda>c. is_backslash c \<or> is_slash c) mf
      in case index_of parts ''models'' of
           None \<Rightarrow> None
         | Some idx \<Rightarrow> at_index parts (idx + 1))"

definition perfPath :: "string \<Rightarrow> string" where
  "perfPath mf = replace_suffix ''model.json'' ''PERFORMANCE.md'' mf"

definition versionsDir :: "string \<Rightarrow> string" where
  "versionsDir mf = replace_suffix ''model.json'' ''versions'' mf"

definition expectedFile :: "string \<Rightarrow> string \<Rightarrow> string" where
  "expectedFile mf m_version = to_slashes (path_join [versionsDir mf, m_version @ ''.json''])"

definition matching :: "string list \<Rightarrow> string \<Rightarrow> string list" where
  "matching versionFiles mf =
     map to_slashes
       (filter (\<lambda>vf. startsWith (to_slashes vf) (to_slashes (versionsDir mf))) versionFiles)"

text \<open>The checks of one model after those of its fields: the folder, the notes, the versions.\<close>

definition validate_layout ::
  "world \<Rightarrow> string list \<Rightarrow> string \<Rightarrow> string \<Rightarrow> string \<Rightarrow> string \<Rightarrow> error + unit" where
  "validate_layout w versionFiles mf m_id m_modality m_version =
     (if folderModality mf \<noteq> Some m_modality
      then Inl (Error (''modality folder mismatch for '' @ m_id))
      else if \<not> (case statSync w (perfPath mf) of Inl e \<Rightarrow> False | Inr st \<Rightarrow> isFile st)
      then Inl (Error (''PERFORMANCE.md missing: '' @ perfPath mf))
      else if matching versionFiles mf = []
      then Inl (Error (''no versions found for model '' @ m_id))
      else if expectedFile mf m_version \<notin> set (matching versionFiles mf)
      then Inl (Error (''missing versions/'' @ m_version @ ''.json for model '' @ m_id))
      else for_each (validate_version w m_id) (matching versionFiles mf))"

text \<open>The checks of the fields of a model document, with the fields the later checks use.\<close>

definition model_fields :: "world \<Rightarrow> string \<Rightarrow> json \<Rightarrow> error + (string \<times> string \<times> string)" where
  "model_fields w mf m =
     (if m = JNull then Inl (null_read ''id'')
      else
     (case as_string (get m ''id'') of
        None \<Rightarrow> Inl (Error (''model.id required: '' @ mf))
      | Some m_id \<Rightarrow>
     if trim m_id = [] then Inl (Error (''model.id required: '' @ mf))
     else
     (case as_string (get m ''name'') of
        None \<Rightarrow> Inl (Error (''model.name required: '' @ mf))
      | Some m_name \<Rightarrow>
     if trim m_name = [] then Inl (Error (''model.name required: '' @ mf))
     else
     (case as_string (get m ''modality'') of
        None \<Rightarrow> Inl (Error (''model.modality invalid: '' @ mf))
      | Some m_modality \<Rightarrow>
     if m_modality \<notin> set MODALITIES then Inl (Error (''model.modality invalid: '' @ mf))
     else if \<not> is_object (get m ''owner'') then Inl (Error (''model.owner required: '' @ mf))
     else
     (case as_string (get m ''createdAt'') of
        None \<Rightarrow> Inl (Error (''createdAt must be ISO date: '' @ mf))
      | Some m_createdAt \<Rightarrow>
     if \<not> isIsoDate w m_createdAt then Inl (Error (''createdAt must be ISO date: '' @ mf))
     else
     (case as_string (get m ''version'') of
        None \<Rightarrow> Inl (Error (''model.version must be SemVer: '' @ mf))
      | Some m_version \<Rightarrow>
     if \<not> re_full SEMVER_RE m_version
     then Inl (Error (''model.version must be SemVer: '' @ mf))
     else Inr (m_id, m_modality, m_version)))))))"

text \<open>The body of the loop over the model files.\<close>

definition validate_model :: "world \<Rightarrow> string list \<Rightarrow> string \<Rightarrow> error + unit" where
  "validate_model w versionFiles mf =
     (case parseJson w mf of
        Inl e \<Rightarrow> Inl e
      | Inr m \<Rightarrow>
          (case model_fields w mf m of
             Inl e \<Rightarrow> Inl e
           | Inr (m_id, m_modality, m_version) \<Rightarrow>
               validate_layout w versionFiles mf m_id m_modality m_version))"

definition modelFiles :: "string list \<Rightarrow> string list" where
  "modelFiles files = filter (\<lambda>p. endsWith p ''model.json'') files"

definition versionFiles :: "string list \<Rightarrow> string list" where
  "versionFiles files = filter (\<lambda>p. re_search VERSIONS_RE p \<and> endsWith p ''.json'') files"

definition cmdValidateModels :: "world \<Rightarrow> string list \<Rightarrow> exit \<times> world" where
  "cmdValidateModels w args =
     (case argValue args ''--root'' (Some ''.'') of
        None \<Rightarrow> (Throw invalid_path, w)
      | Some root \<Rightarrow>
     (case walk w (path_join [root, ''models'']) of
        Inl e \<Rightarrow> (Throw e, w)
      | Inr files \<Rightarrow>
     if modelFiles files = []
     then (Throw (Error ''no model.json entries found under models/''), w)
     else
     (case for_each (validate_model w (versionFiles files)) (modelFiles files) of
        Inl e \<Rightarrow> (Throw e, w)
      | Inr u \<Rightarrow> (Return [''OK: models registry validation passed.''] 0, w))))"

subsection \<open>\<^verbatim>\<open>digest\<close>\<close>

definition cmdDigest :: "world \<Rightarrow> string list \<Rightarrow> exit \<times> world" where
  "cmdDigest w args =
     (case argValue args ''--file'' None of
        None \<Rightarrow> (Die ''digest: --file is required'', w)
      | Some file \<Rightarrow>
     if file = [] then (Die ''digest: --file is required'', w)
     else
     (case readFileSync w file of
        Inl e \<Rightarrow> (Throw e, w)
      | Inr buf \<Rightarrow>
          (let out = ''sha256:'' @ sha256_hex w buf
           in if hasFlag args ''--json''
              then (Return [JSON_stringify w (JObj [(''file'', JStr file), (''digest'', JStr out)])] 0, w)
              else (Return [out] 0, w))))"

subsection \<open>The dispatcher\<close>

text \<open>
  \<open>cmdPublish\<close> only reports: it runs \<^verbatim>\<open>git\<close> and prints what changed. It is a parameter of
  the dispatcher, with the lines it prints.
\<close>

definition commands ::
  "(world \<Rightarrow> string list \<Rightarrow> exit) \<Rightarrow> (string \<times> (world \<Rightarrow> string list \<Rightarrow> exit \<times> world)) list" where
  "commands cmdPublish =
     [(''init:model'', cmdInitModel),
      (''validate:models'', cmdValidateModels),
      (''digest'', cmdDigest),
      (''publish'', \<lambda>w args. (cmdPublish w args, w))]"

text \<open>What the process leaves behind: the two streams and the exit code.\<close>

fun finish :: "exit \<Rightarrow> outcome" where
  "finish (Return out code) = \<lparr>stdout = out, stderr = [], exit_code = code\<rparr>"
| "finish (Die msg) = \<lparr>stdout = [], stderr = [msg], exit_code = 1\<rparr>"
| "finish (Throw e) = \<lparr>stdout = [], stderr = [message e], exit_code = 1\<rparr>"

definition main ::
  "(world \<Rightarrow> string list \<Rightarrow> exit) \<Rightarrow> world \<Rightarrow> string list \<Rightarrow> outcome \<times> world" where
  "main cmdPublish w args =
     (if args = [] \<or> ''--help'' \<in> set args \<or> ''-h'' \<in> set args
      then (\<lparr>stdout = [help_text], stderr = [], exit_code = 0\<rparr>, w)
      else
        (let c1 = at_index args 0;
             c2 = at_index args 1;
             rest = drop 2 args;
             key = (if c1 = Some ''init'' \<and> c2 = Some ''model'' then Some ''init:model''
                    else if c1 = Some ''validate'' \<and> c2 = Some ''models'' then Some ''validate:models''
                    else if c1 = Some ''digest'' then Some ''digest''
                    else if c1 = Some ''publish'' then Some ''publish''
                    else None)
         in case (case key of None \<Rightarrow> None | Some k \<Rightarrow> map_of (commands cmdPublish) k) of
              None \<Rightarrow> (\<lparr>stdout = [help_text], stderr = [''Unknown command.''], exit_code = 1\<rparr>, w)
            | Some cmd \<Rightarrow> (case cmd w rest of (x, w') \<Rightarrow> (finish x, w'))))"

section \<open>The formats as the specification words them\<close>

definition is_digit :: "char \<Rightarrow> bool" where
  "is_digit c = in_range CHR ''0'' CHR ''9'' c"

definition is_ident_char :: "char \<Rightarrow> bool" where
  "is_ident_char c =
     (in_range CHR ''0'' CHR ''9'' c \<or> in_range CHR ''A'' CHR ''Z'' c \<or>
      in_range CHR ''a'' CHR ''z'' c \<or> c = CHR ''.'' \<or> c = CHR ''-'')"

definition is_hex_char :: "char \<Rightarrow> bool" where
  "is_hex_char c =
     (in_range CHR ''0'' CHR ''9'' c \<or> in_range CHR ''a'' CHR ''f'' c \<or>
      in_range CHR ''A'' CHR ''F'' c)"

text \<open>A non-negative integer in decimal: one digit or more, leading zeros allowed.\<close>

definition is_number :: "string \<Rightarrow> bool" where
  "is_number w = (w \<noteq> [] \<and> list_all is_digit w)"

text \<open>A pre-release or build part: one character or more of letters, digits, dots, hyphens.\<close>

definition is_identifier :: "string \<Rightarrow> bool" where
  "is_identifier w = (w \<noteq> [] \<and> list_all is_ident_char w)"

fun opt_part :: "char \<Rightarrow> string option \<Rightarrow> string" where
  "opt_part c None = []"
| "opt_part c (Some p) = c # p"

fun opt_identifier :: "string option \<Rightarrow> bool" where
  "opt_identifier None = True"
| "opt_identifier (Some p) = is_identifier p"

definition semver_string ::
  "string \<Rightarrow> string \<Rightarrow> string \<Rightarrow> string option \<Rightarrow> string option \<Rightarrow> string" where
  "semver_string major minor patch pre build =
     major @ ''.'' @ minor @ ''.'' @ patch @ opt_part CHR ''-'' pre @ opt_part CHR ''+'' build"

text \<open>\<open>MAJOR.MINOR.PATCH\<close>, then optionally \<open>-prerelease\<close>, then optionally \<open>+buildmetadata\<close>.\<close>

definition spec_semver :: "string \<Rightarrow> bool" where
  "spec_semver s =
     (\<exists>major minor patch pre build.
        s = semver_string major minor patch pre build \<and>
        is_number major \<and> is_number minor \<and> is_number patch \<and>
        opt_identifier pre \<and> opt_identifier build)"

text \<open>The digest format with the prefix in lower case only: \<open>sha256:\<close> and 64 hex characters.\<close>

definition spec_digest :: "string \<Rightarrow> bool" where
  "spec_digest s =
     (take 7 s = ''sha256:'' \<and> length (drop 7 s) = 64 \<and> list_all is_hex_char (drop 7 s))"

text \<open>The digest format with the prefix in either case.\<close>

definition digest_any_case :: "string \<Rightarrow> bool" where
  "digest_any_case s =
     (map to_lower (take 7 s) = ''sha256:'' \<and> length (drop 7 s) = 64 \<and>
      list_all is_hex_char (drop 7 s))"


text \<open>
  A plain path segment: a name that is not empty, not \<^verbatim>\<open>.\<close> or \<^verbatim>\<open>..\<close>, and has no slash or
  backslash in it.
\<close>

definition plain_segment :: "string \<Rightarrow> bool" where
  "plain_segment s =
     (s \<noteq> [] \<and> s \<noteq> ''.'' \<and> s \<noteq> ''..'' \<and> list_all (\<lambda>c. \<not> is_slash c \<and> \<not> is_backslash c) s)"







section \<open>The language of a pattern\<close>

definition conc :: "string set \<Rightarrow> string set \<Rightarrow> string set" where
  "conc A B = {a @ b | a b. a \<in> A \<and> b \<in> B}"

inductive_set star :: "string set \<Rightarrow> string set" for A :: "string set" where
  star_nil: "[] \<in> star A"
| star_app: "a \<in> A \<Longrightarrow> w \<in> star A \<Longrightarrow> a @ w \<in> star A"

fun lang :: "re \<Rightarrow> string set" where
  "lang Zero = {}"
| "lang One = {[]}"
| "lang (Atom ic cs) = {[c] | c. atom_match ic cs c}"
| "lang (Alt r s) = lang r \<union> lang s"
| "lang (Seq r s) = conc (lang r) (lang s)"
| "lang (Star r) = star (lang r)"

section \<open>Sample registries\<close>

text \<open>
  Concrete environments for the scenarios of the specification. The JSON parser of these
  environments is given by its graph on the texts of the sample files; every other text is
  malformed for it.
\<close>

definition zero_digest :: string where
  "zero_digest = ''sha256:'' @ replicate 64 CHR ''0''"

definition sample_model :: "string \<Rightarrow> string \<Rightarrow> string \<Rightarrow> json" where
  "sample_model m_id modality version =
     JObj [(''id'', JStr m_id), (''name'', JStr ''Sample''), (''modality'', JStr modality),
       (''owner'', JObj [(''contributorId'', JStr ''contrib:sample'')]),
       (''createdAt'', JStr ''2026-01-01T00:00:00.000Z''), (''version'', JStr version)]"

definition sample_version :: "string \<Rightarrow> string \<Rightarrow> string \<Rightarrow> json" where
  "sample_version m_id version digest =
     JObj [(''modelId'', JStr m_id), (''version'', JStr version),
       (''artifact'', JObj [(''uri'', JStr ''TODO''), (''digest'', JStr digest)])]"

definition sample_texts :: "(string \<times> json) list" where
  "sample_texts =
     [(''foo model 1.0.0'', sample_model ''org/foo'' ''text'' ''1.0.0''),
      (''foo model 1.1.0'', sample_model ''org/foo'' ''text'' ''1.1.0''),
      (''bar model 1.0.0'', sample_model ''org/bar'' ''text'' ''1.0.0''),
      (''foo version 1.0.0'', sample_version ''org/foo'' ''1.0.0'' zero_digest),
      (''foo version 0.9.0'', sample_version ''org/foo'' ''0.9.0'' ''sha256:xyz'')]"

definition sample_world :: "node \<Rightarrow> world" where
  "sample_world tree =
     \<lparr>fs = tree,
      JSON_parse = map_of sample_texts,
      JSON_stringify = (\<lambda>v. ''null''),
      Date_parse_finite = (\<lambda>s. s = ''2026-01-01T00:00:00.000Z''),
      now_iso = ''2026-01-01T00:00:00.000Z'',
      sha256_hex = (\<lambda>s. replicate 64 CHR ''0'')\<rparr>"

definition no_publish :: "world \<Rightarrow> string list \<Rightarrow> exit" where
  "no_publish w args = Return [] 0"

text \<open>\<^verbatim>\<open>models/text/foo\<close> with its document, its notes and the version it names.\<close>

definition tree_ok :: node where
  "tree_ok =
     Dir [(''models'', Dir [(''text'', Dir [(''foo'', Dir
       [(''model.json'', File ''foo model 1.0.0''),
        (''PERFORMANCE.md'', File ''# notes''),
        (''versions'', Dir [(''1.0.0.json'', File ''foo version 1.0.0'')])])])])]"

text \<open>The same tree whose document names version 1.1.0.\<close>

definition tree_version_missing :: node where
  "tree_version_missing =
     Dir [(''models'', Dir [(''text'', Dir [(''foo'', Dir
       [(''model.json'', File ''foo model 1.1.0''),
        (''PERFORMANCE.md'', File ''# notes''),
        (''versions'', Dir [(''1.0.0.json'', File ''foo version 1.0.0'')])])])])]"



text \<open>A \<^verbatim>\<open>models\<close> directory without any \<^verbatim>\<open>model.json\<close>, and a file that is not JSON.\<close>

definition tree_no_models :: node where
  "tree_no_models =
     Dir [(''models'', Dir [(''README.md'', File ''# registry''),
                          (''broken.json'', File ''{ not json'')])]"


text \<open>
  An empty working directory for \<^verbatim>\<open>init model --modality text --slug demo --id org/demo\<close> with
  a given \<^verbatim>\<open>--version\<close>. The serialiser of this environment is given on the two documents
  that the command writes, and its parser reads them back.
\<close>

definition demo_model :: "string \<Rightarrow> json" where
  "demo_model version =
     modelJson ''org/demo'' (Some ''demo'') ''text'' (Some ''contrib:unknown'') (Some ''Unknown'')
       ''2026-01-01T00:00:00.000Z'' version"

definition demo_version :: "string \<Rightarrow> json" where
  "demo_version version = versionJson ''org/demo'' version ''2026-01-01T00:00:00.000Z''"

definition demo_world :: "string \<Rightarrow> world" where
  "demo_world version =
     \<lparr>fs = Dir [],
      JSON_parse = map_of [(''model document'' @ [CHR 0x0A], demo_model version),
                           (''version document'' @ [CHR 0x0A], demo_version version)],
      JSON_stringify = (\<lambda>v. if v = demo_model version then ''model document''
                            else if v = demo_version version then ''version document''
                            else ''null''),
      Date_parse_finite = (\<lambda>s. s = ''2026-01-01T00:00:00.000Z''),
      now_iso = ''2026-01-01T00:00:00.000Z'',
      sha256_hex = (\<lambda>s. replicate 64 CHR ''0'')\<rparr>"




section \<open>Matching decides the language\<close>

lemma conc_empty [simp]: "conc {} B = {}" "conc A {} = {}"
  by (auto simp: conc_def)

lemma conc_unit [simp]: "conc {[]} B = B" "conc A {[]} = A"
  by (auto simp: conc_def)

lemma concI: "a \<in> A \<Longrightarrow> b \<in> B \<Longrightarrow> a @ b \<in> conc A B"
  by (auto simp: conc_def)

lemma lang_alt [simp]: "lang (alt r s) = lang r \<union> lang s"
  by (induction r s rule: alt.induct) auto

lemma lang_seq [simp]: "lang (seq r s) = conc (lang r) (lang s)"
  by (induction r s rule: seq.induct) auto

lemma nullable_iff: "nullable r \<longleftrightarrow> [] \<in> lang r"
  by (induction r) (auto simp: conc_def intro: star.intros)

lemma star_cons_split:
  "x \<in> star A \<Longrightarrow> x = c # w \<Longrightarrow> \<exists>a b. w = a @ b \<and> c # a \<in> A \<and> b \<in> star A"
proof (induction arbitrary: w rule: star.induct)
  case star_nil
  then show ?case by simp
next
  case (star_app a v)
  show ?case
  proof (cases a)
    case Nil
    with star_app show ?thesis by simp
  next
    case (Cons d a')
    with star_app.prems have "d = c" "w = a' @ v" by simp_all
    with Cons star_app.hyps show ?thesis by blast
  qed
qed

lemma deriv_star: "{w. c # w \<in> star A} = conc {w. c # w \<in> A} (star A)"
proof (rule set_eqI, rule iffI)
  fix w assume "w \<in> {w. c # w \<in> star A}"
  then have "c # w \<in> star A" by simp
  from star_cons_split [OF this refl] show "w \<in> conc {w. c # w \<in> A} (star A)"
    by (auto simp: conc_def)
next
  fix w assume "w \<in> conc {w. c # w \<in> A} (star A)"
  then obtain a b where "w = a @ b" "c # a \<in> A" "b \<in> star A"
    by (auto simp: conc_def)
  then have "(c # a) @ b \<in> star A" by (intro star_app)
  with \<open>w = a @ b\<close> show "w \<in> {w. c # w \<in> star A}" by simp
qed

lemma deriv_conc:
  "{w. c # w \<in> conc A B} =
     conc {w. c # w \<in> A} B \<union> (if [] \<in> A then {w. c # w \<in> B} else {})"
proof (rule set_eqI, rule iffI)
  fix w assume "w \<in> {w. c # w \<in> conc A B}"
  then obtain a b where ab: "c # w = a @ b" "a \<in> A" "b \<in> B"
    by (auto simp: conc_def)
  show "w \<in> conc {w. c # w \<in> A} B \<union> (if [] \<in> A then {w. c # w \<in> B} else {})"
  proof (cases a)
    case Nil
    with ab show ?thesis by auto
  next
    case (Cons d a')
    with ab have "d = c" "w = a' @ b" by simp_all
    with Cons ab have "w \<in> conc {w. c # w \<in> A} B" by (auto simp: conc_def)
    then show ?thesis by simp
  qed
next
  fix w assume "w \<in> conc {w. c # w \<in> A} B \<union> (if [] \<in> A then {w. c # w \<in> B} else {})"
  then consider (l) "w \<in> conc {w. c # w \<in> A} B" | (r) "[] \<in> A" "c # w \<in> B"
    by (auto split: if_splits)
  then show "w \<in> {w. c # w \<in> conc A B}"
  proof cases
    case l
    then obtain a b where "w = a @ b" "c # a \<in> A" "b \<in> B" by (auto simp: conc_def)
    then have "(c # a) @ b \<in> conc A B" by (intro concI)
    with \<open>w = a @ b\<close> show ?thesis by simp
  next
    case r
    then have "[] @ (c # w) \<in> conc A B" by (intro concI)
    then show ?thesis by simp
  qed
qed

lemma lang_deriv: "lang (deriv c r) = {w. c # w \<in> lang r}"
proof (induction r)
  case (Seq r1 r2)
  then show ?case by (auto simp: deriv_conc nullable_iff)
next
  case (Star r)
  then show ?case by (simp add: deriv_star)
qed auto

lemma re_full_iff: "re_full r s \<longleftrightarrow> s \<in> lang r"
  by (induction s arbitrary: r) (simp_all add: nullable_iff lang_deriv)

lemma star_atoms: "star {[c] | c. P c} = {w. list_all P w}"
proof (rule set_eqI, rule iffI)
  fix w assume "w \<in> star {[c] | c. P c}"
  then show "w \<in> {w. list_all P w}" by (induction rule: star.induct) auto
next
  fix w assume "w \<in> {w. list_all P w}"
  then have "list_all P w" by simp
  then show "w \<in> star {[c] | c. P c}"
  proof (induction w)
    case Nil
    show ?case by (rule star_nil)
  next
    case (Cons c w)
    then have "[c] \<in> {[c] | c. P c}" "w \<in> star {[c] | c. P c}" by auto
    then have "[c] @ w \<in> star {[c] | c. P c}" by (rule star_app)
    then show ?case by simp
  qed
qed

lemma conc_atoms: "conc {[c] | c. P c} B = {c # w | c w. P c \<and> w \<in> B}"
proof (rule set_eqI, rule iffI)
  fix x assume "x \<in> conc {[c] | c. P c} B"
  then show "x \<in> {c # w | c w. P c \<and> w \<in> B}" by (auto simp: conc_def)
next
  fix x assume "x \<in> {c # w | c w. P c \<and> w \<in> B}"
  then obtain c w where "x = [c] @ w" "P c" "w \<in> B" by auto
  then show "x \<in> conc {[c] | c. P c} B" unfolding conc_def by blast
qed

lemma lang_Plus_Atom:
  "lang (Plus (Atom ic cs)) = {w. w \<noteq> [] \<and> list_all (atom_match ic cs) w}"
  by (auto simp: Plus_def star_atoms conc_atoms neq_Nil_conv)

lemma lang_Rep_Atom:
  "lang (Rep n (Atom ic cs)) = {w. length w = n \<and> list_all (atom_match ic cs) w}"
proof (induction n)
  case 0
  show ?case by auto
next
  case (Suc n)
  show ?case by (auto simp: Suc conc_atoms length_Suc_conv)
qed

lemma lang_Lit: "lang (Lit ic s) = {w. list_all2 (\<lambda>a c. atom_match ic [(a, a)] c) s w}"
proof (induction s)
  case Nil
  show ?case by auto
next
  case (Cons a s)
  show ?case by (auto simp: Cons conc_atoms list_all2_Cons1)
qed

lemma lang_Opt: "lang (Opt r) = insert [] (lang r)"
  by (auto simp: Opt_def)

lemma atom_match_single: "atom_match False [(a, a)] c \<longleftrightarrow> c = a"
  by (auto simp: atom_match_def in_class_def in_range_def)

lemma lang_Lit_exact: "lang (Lit False s) = {s}"
proof -
  have "list_all2 (\<lambda>a c. c = a) s w \<longleftrightarrow> w = s" for w
    by (induction s arbitrary: w) (auto simp: list_all2_Cons1)
  then show ?thesis by (auto simp: lang_Lit atom_match_single)
qed

lemma atom_match_digit: "atom_match False digit_class = is_digit"
  by (auto simp: atom_match_def in_class_def digit_class_def is_digit_def fun_eq_iff)

lemma atom_match_ident: "atom_match False ident_class = is_ident_char"
  by (auto simp: atom_match_def in_class_def ident_class_def is_ident_char_def in_range_def
      fun_eq_iff)

lemma lang_number: "lang (Plus (Atom False digit_class)) = {w. is_number w}"
  by (simp add: lang_Plus_Atom atom_match_digit is_number_def)


lemma lang_opt_part:
  "lang (Opt (Seq (Lit False [c]) (Plus (Atom False ident_class)))) =
     {opt_part c p | p. opt_identifier p}"
proof -
  have L: "lang (Opt (Seq (Lit False [c]) (Plus (Atom False ident_class)))) =
      insert [] {c # p | p. is_identifier p}"
    unfolding lang_Opt lang.simps lang_Lit_exact lang_Plus_Atom atom_match_ident
    by (auto simp: conc_def is_identifier_def)
  have R: "{opt_part c p | p. opt_identifier p} = insert [] {c # p | p. is_identifier p}"
  proof (rule set_eqI, rule iffI)
    fix x assume "x \<in> {opt_part c p | p. opt_identifier p}"
    then obtain p where p: "x = opt_part c p" "opt_identifier p" by blast
    then show "x \<in> insert [] {c # p | p. is_identifier p}" by (cases p) auto
  next
    fix x assume "x \<in> insert [] {c # p | p. is_identifier p}"
    then consider "x = []" | q where "x = c # q" "is_identifier q" by blast
    then show "x \<in> {opt_part c p | p. opt_identifier p}"
    proof cases
      case 1
      then have "x = opt_part c None \<and> opt_identifier None" by simp
      then show ?thesis by blast
    next
      case 2
      then have "x = opt_part c (Some q) \<and> opt_identifier (Some q)" by simp
      then show ?thesis by blast
    qed
  qed
  show ?thesis unfolding L R ..
qed


lemma conc_iff: "w \<in> conc A B \<longleftrightarrow> (\<exists>a b. w = a @ b \<and> a \<in> A \<and> b \<in> B)"
  by (auto simp: conc_def)

lemma lang_SEMVER_RE: "lang SEMVER_RE = {s. spec_semver s}"
proof -
  have L: "lang SEMVER_RE =
    conc {w. is_number w} (conc {''.''} (conc {w. is_number w} (conc {''.''}
      (conc {w. is_number w}
        (conc {opt_part CHR ''-'' p | p. opt_identifier p}
              {opt_part CHR ''+'' p | p. opt_identifier p})))))"
    unfolding SEMVER_RE_def lang.simps lang_number lang_Lit_exact lang_opt_part ..
  show ?thesis
  proof (rule set_eqI, rule iffI)
    fix s assume "s \<in> lang SEMVER_RE"
    then obtain ma r1 where 1: "s = ma @ r1" "is_number ma"
        "r1 \<in> conc {''.''} (conc {w. is_number w} (conc {''.''}
          (conc {w. is_number w}
            (conc {opt_part CHR ''-'' p | p. opt_identifier p}
                  {opt_part CHR ''+'' p | p. opt_identifier p}))))"
      unfolding L conc_iff [of s] by blast
    then obtain r2 where 2: "r1 = ''.'' @ r2"
        "r2 \<in> conc {w. is_number w} (conc {''.''}
          (conc {w. is_number w}
            (conc {opt_part CHR ''-'' p | p. opt_identifier p}
                  {opt_part CHR ''+'' p | p. opt_identifier p})))"
      unfolding conc_iff [of r1] by blast
    then obtain mi r3 where 3: "r2 = mi @ r3" "is_number mi"
        "r3 \<in> conc {''.''}
          (conc {w. is_number w}
            (conc {opt_part CHR ''-'' p | p. opt_identifier p}
                  {opt_part CHR ''+'' p | p. opt_identifier p}))"
      unfolding conc_iff [of r2] by blast
    then obtain r4 where 4: "r3 = ''.'' @ r4"
        "r4 \<in> conc {w. is_number w}
            (conc {opt_part CHR ''-'' p | p. opt_identifier p}
                  {opt_part CHR ''+'' p | p. opt_identifier p})"
      unfolding conc_iff [of r3] by blast
    then obtain pa r5 where 5: "r4 = pa @ r5" "is_number pa"
        "r5 \<in> conc {opt_part CHR ''-'' p | p. opt_identifier p}
                  {opt_part CHR ''+'' p | p. opt_identifier p}"
      unfolding conc_iff [of r4] by blast
    then obtain pre build where 6: "r5 = opt_part CHR ''-'' pre @ opt_part CHR ''+'' build"
        "opt_identifier pre" "opt_identifier build"
      unfolding conc_iff [of r5] by blast
    have "s = semver_string ma mi pa pre build"
      unfolding semver_string_def 1 2 3 4 5 6 by simp
    with 1 3 5 6 show "s \<in> {s. spec_semver s}"
      unfolding spec_semver_def by blast
  next
    fix s assume "s \<in> {s. spec_semver s}"
    then obtain ma mi pa pre build where
      s: "s = semver_string ma mi pa pre build" and
      n: "is_number ma" "is_number mi" "is_number pa" and
      p: "opt_identifier pre" "opt_identifier build"
      unfolding spec_semver_def by blast
    have d: "''.'' \<in> {''.''}" by simp
    have n': "ma \<in> {w. is_number w}" "mi \<in> {w. is_number w}" "pa \<in> {w. is_number w}"
      using n by simp_all
    have p': "opt_part CHR ''-'' pre \<in> {opt_part CHR ''-'' p | p. opt_identifier p}"
      "opt_part CHR ''+'' build \<in> {opt_part CHR ''+'' p | p. opt_identifier p}"
      using p by blast+
    have "ma @ ''.'' @ mi @ ''.'' @ pa @ opt_part CHR ''-'' pre @ opt_part CHR ''+'' build
        \<in> lang SEMVER_RE"
      unfolding L
      by (rule concI [OF n'(1) concI [OF d concI [OF n'(2) concI [OF d concI [OF n'(3)
            concI [OF p']]]]]])
    then show "s \<in> lang SEMVER_RE"
      unfolding s semver_string_def .
  qed
qed

lemma code_canonicalize:
  "(of_char (canonicalize c) :: nat) =
     (if 97 \<le> (of_char c :: nat) \<and> (of_char c :: nat) \<le> 122 then of_char c - 32 else of_char c)"
  by (auto simp: canonicalize_def in_range_def less_eq_char_def)

lemma code_to_lower:
  "(of_char (to_lower c) :: nat) =
     (if 65 \<le> (of_char c :: nat) \<and> (of_char c :: nat) \<le> 90 then of_char c + 32 else of_char c)"
  by (auto simp: to_lower_def in_range_def less_eq_char_def)

lemma in_range_code:
  "in_range lo hi c \<longleftrightarrow> (of_char lo :: nat) \<le> of_char c \<and> (of_char c :: nat) \<le> of_char hi"
  by (simp add: in_range_def less_eq_char_def)

lemma atom_match_hex: "atom_match True hex_class c = is_hex_char c"
  unfolding atom_match_def in_class_def hex_class_def is_hex_char_def
  by (simp add: in_range_code code_canonicalize code_to_lower) arith

lemma atom_match_ic_single:
  assumes "\<not> in_range CHR ''A'' CHR ''Z'' a"
  shows "atom_match True [(a, a)] c \<longleftrightarrow> to_lower c = a"
proof -
  define n :: nat where "n = of_char c"
  define m :: nat where "m = of_char a"
  have m: "\<not> (65 \<le> m \<and> m \<le> 90)"
    using assms by (simp add: in_range_code m_def)
  have "atom_match True [(a, a)] c \<longleftrightarrow>
      (of_char (canonicalize c) :: nat) = m \<or> (of_char (to_lower (canonicalize c)) :: nat) = m"
    unfolding atom_match_def in_class_def m_def by (auto simp: in_range_code)
  also have "\<dots> \<longleftrightarrow> (of_char (to_lower c) :: nat) = m"
    using m unfolding code_to_lower code_canonicalize n_def [symmetric] by arith
  also have "\<dots> \<longleftrightarrow> to_lower c = a"
    unfolding m_def by simp
  finally show ?thesis .
qed

lemma sha256_prefix_match:
  "\<forall>a \<in> set s. \<not> in_range CHR ''A'' CHR ''Z'' a \<Longrightarrow>
   list_all2 (\<lambda>a c. atom_match True [(a, a)] c) s p \<longleftrightarrow> map to_lower p = s"
proof (induction s arbitrary: p)
  case Nil
  show ?case by simp
next
  case (Cons a s)
  then show ?case
    by (cases p) (auto simp: atom_match_ic_single)
qed


lemma lang_sha256_prefix: "lang (Lit True ''sha256:'') = {p. map to_lower p = ''sha256:''}"
proof -
  have low: "\<forall>a \<in> set ''sha256:''. \<not> in_range CHR ''A'' CHR ''Z'' a"
    by (simp add: in_range_def)
  show ?thesis
    unfolding lang_Lit sha256_prefix_match [OF low] ..
qed

lemma concE:
  "w \<in> conc A B \<Longrightarrow> (\<And>a b. w = a @ b \<Longrightarrow> a \<in> A \<Longrightarrow> b \<in> B \<Longrightarrow> P) \<Longrightarrow> P"
  by (auto simp: conc_def)

lemma sha256_lang_split:
  "s \<in> lang SHA256_RE \<Longrightarrow>
   s \<in> conc {p. map to_lower p = ''sha256:''} {w. length w = 64 \<and> list_all is_hex_char w}"
  unfolding SHA256_RE_def lang.simps lang_sha256_prefix lang_Rep_Atom atom_match_hex [abs_def] .

lemma digest_any_case_append:
  assumes s: "s = p @ h" and p: "map to_lower p = ''sha256:''"
      and h: "length h = 64 \<and> list_all is_hex_char h"
  shows "digest_any_case s"
proof -
  have "length (map to_lower p) = length p" by (rule length_map)
  then have "length p = length ''sha256:''" unfolding p by simp
  then have lp: "length p = 7" by simp
  have tk: "take 7 s = p" unfolding s using lp by simp
  have dr: "drop 7 s = h" unfolding s using lp by simp
  show ?thesis
    unfolding mem_Collect_eq digest_any_case_def tk dr using p h by blast
qed

lemma digest_any_case_lang:
  assumes "digest_any_case s"
  shows "s \<in> lang SHA256_RE"
proof -
  from assms have d: "map to_lower (take 7 s) = ''sha256:''"
      "length (drop 7 s) = 64 \<and> list_all is_hex_char (drop 7 s)"
    unfolding mem_Collect_eq digest_any_case_def by blast+
  have 1: "take 7 s \<in> {p. map to_lower p = ''sha256:''}"
    by (rule CollectI) (rule d(1))
  have 2: "drop 7 s \<in> {w. length w = 64 \<and> list_all (atom_match True hex_class) w}"
    unfolding atom_match_hex [abs_def] by (rule CollectI) (rule d(2))
  have "take 7 s @ drop 7 s \<in> lang SHA256_RE"
    unfolding SHA256_RE_def lang.simps lang_sha256_prefix lang_Rep_Atom
    by (rule concI [OF 1 2])
  then show "s \<in> lang SHA256_RE" unfolding append_take_drop_id .
qed

lemma lang_SHA256_RE: "lang SHA256_RE = {s. digest_any_case s}"
proof (rule set_eqI, rule iffI)
  fix s assume "s \<in> lang SHA256_RE"
  then have "s \<in> conc {p. map to_lower p = ''sha256:''}
      {w. length w = 64 \<and> list_all is_hex_char w}"
    by (rule sha256_lang_split)
  then obtain p h where s: "s = p @ h" and p: "p \<in> {p. map to_lower p = ''sha256:''}"
      and h: "h \<in> {w. length w = 64 \<and> list_all is_hex_char w}"
    by (rule concE)
  from p have p': "map to_lower p = ''sha256:''" by (rule CollectD)
  from h have h': "length h = 64 \<and> list_all is_hex_char h" by (rule CollectD)
  show "s \<in> {s. digest_any_case s}"
    by (rule CollectI) (rule digest_any_case_append [OF s p' h'])
next
  fix s assume "s \<in> {s. digest_any_case s}"
  then have "digest_any_case s" by (rule CollectD)
  then show "s \<in> lang SHA256_RE" by (rule digest_any_case_lang)
qed

section \<open>The dispatcher and the loops\<close>

lemma cmdValidateModels_world: "snd (cmdValidateModels w args) = w"
  by (simp add: cmdValidateModels_def split: option.splits sum.splits)

lemma main_validate:
  assumes "''--help'' \<notin> set args" "''-h'' \<notin> set args"
  shows "main p w (''validate'' # ''models'' # args) = (finish (fst (cmdValidateModels w args)), w)"
proof -
  obtain x w' where x: "cmdValidateModels w args = (x, w')" by (cases "cmdValidateModels w args")
  with cmdValidateModels_world [of w args] have "w' = w" by simp
  with x assms show ?thesis
    by (simp add: main_def commands_def at_index_def)
qed





section \<open>The format checks\<close>

text \<open>
  C6. The SemVer check accepts exactly the strings \<open>MAJOR.MINOR.PATCH\<close> with each part one or
  more decimal digits (leading zeros allowed), optionally followed by \<open>-\<close> and a pre-release
  part and then optionally by \<open>+\<close> and a build part, both non-empty and made of letters,
  digits, dots and hyphens; nothing may come before or after. A missing part, a part that is
  not a number and trailing characters are rejected.
\<close>

theorem semver_check_exact:
  "(re_full SEMVER_RE s \<longleftrightarrow> spec_semver s) \<and>
   re_full SEMVER_RE ''01.002.0003'' \<and>
   \<not> re_full SEMVER_RE ''1.2'' \<and>
   \<not> re_full SEMVER_RE ''1.x.3'' \<and>
   \<not> re_full SEMVER_RE ''1.2.3 beta'' \<and>
   \<not> re_full SEMVER_RE (''1.2.3'' @ [CHR 0x0A])"
proof -
  have "re_full SEMVER_RE s \<longleftrightarrow> spec_semver s"
    by (simp add: re_full_iff lang_SEMVER_RE)
  moreover have "re_full SEMVER_RE ''01.002.0003''" by code_simp
  moreover have "\<not> re_full SEMVER_RE ''1.2''" by code_simp
  moreover have "\<not> re_full SEMVER_RE ''1.x.3''" by code_simp
  moreover have "\<not> re_full SEMVER_RE ''1.2.3 beta''" by code_simp
  moreover have "\<not> re_full SEMVER_RE (''1.2.3'' @ [CHR 0x0A])" by code_simp
  ultimately show ?thesis by blast
qed

theorem semver_check_exact_witness:
  "re_full SEMVER_RE ''1.2.3-rc.1+build.5'' \<and> spec_semver ''1.2.3-rc.1+build.5''"
proof -
  have "re_full SEMVER_RE ''1.2.3-rc.1+build.5''" by code_simp
  with semver_check_exact [of "''1.2.3-rc.1+build.5''"] show ?thesis by blast
qed

text \<open>
  C2, as the claim words it, fails: the \<^verbatim>\<open>i\<close> flag of the pattern covers the prefix too, so
  \<open>SHA256:\<close> in upper case followed by 64 hex characters is accepted.
\<close>

theorem digest_check_upper_prefix_accepted:
  "re_full SHA256_RE (''SHA256:'' @ replicate 64 CHR ''0'') \<and>
   \<not> spec_digest (''SHA256:'' @ replicate 64 CHR ''0'')"
  by code_simp

text \<open>
  C2, amended. The digest-format check accepts a string if and only if it is the seven
  characters \<open>sha256:\<close>, each letter in either case, followed by exactly 64 hexadecimal
  characters in either case, and nothing else.
\<close>

theorem digest_check_any_case:
  "re_full SHA256_RE s \<longleftrightarrow> digest_any_case s"
  unfolding re_full_iff lang_SHA256_RE mem_Collect_eq ..

theorem digest_check_any_case_witness:
  "re_full SHA256_RE (''sha256:'' @ replicate 32 CHR ''a'' @ replicate 32 CHR ''F'') \<and>
   \<not> re_full SHA256_RE (''sha256:'' @ replicate 63 CHR ''0'') \<and>
   \<not> re_full SHA256_RE (''sha256:'' @ replicate 65 CHR ''0'') \<and>
   \<not> re_full SHA256_RE (''sha256:'' @ replicate 63 CHR ''0'' @ ''g'')"
proof -
  have "digest_any_case (''sha256:'' @ replicate 32 CHR ''a'' @ replicate 32 CHR ''F'')"
    by code_simp
  moreover have "\<not> digest_any_case (''sha256:'' @ replicate 63 CHR ''0'')" by code_simp
  moreover have "\<not> digest_any_case (''sha256:'' @ replicate 65 CHR ''0'')" by code_simp
  moreover have "\<not> digest_any_case (''sha256:'' @ replicate 63 CHR ''0'' @ ''g'')" by code_simp
  ultimately show ?thesis
    unfolding digest_check_any_case by blast
qed

section \<open>The document loader\<close>

text \<open>
  C1, as the claim words it, fails: the \<^verbatim>\<open>try\<close> block of \<open>parseJson\<close> holds the read as well as
  the parse, so a read that fails with \<open>ENOENT\<close> is reported as \<open>invalid_json\<close> and the error of
  the file system is lost.
\<close>

theorem parseJson_hides_read_error:
  "readFileSync (sample_world tree_no_models) ''models/absent.json'' = Inl (SystemError ''ENOENT'') \<and>
   parseJson (sample_world tree_no_models) ''models/absent.json'' =
     Inl (Error ''invalid_json: models/absent.json'') \<and>
   parseJson (sample_world tree_no_models) ''models/absent.json'' \<noteq> Inl (SystemError ''ENOENT'')"
  by code_simp

text \<open>
  C1, amended. The loader fails with the same \<open>invalid_json\<close> error, carrying the offending
  path, when the file cannot be read and when it is read but its contents do not parse; the
  error of the read is not propagated. When the file is read and parses, the loader returns
  the parsed document.
\<close>

theorem parseJson_outcomes:
  "(readFileSync w path = Inl e \<longrightarrow> parseJson w path = Inl (Error (''invalid_json: '' @ path))) \<and>
   (readFileSync w path = Inr s \<and> JSON_parse w s = None \<longrightarrow>
      parseJson w path = Inl (Error (''invalid_json: '' @ path))) \<and>
   (readFileSync w path = Inr s \<and> JSON_parse w s = Some v \<longrightarrow> parseJson w path = Inr v)"
  by (simp add: parseJson_def)

theorem parseJson_outcomes_witness:
  "parseJson (sample_world tree_no_models) ''models/absent.json'' =
     Inl (Error ''invalid_json: models/absent.json'') \<and>
   parseJson (sample_world tree_no_models) ''models/broken.json'' =
     Inl (Error ''invalid_json: models/broken.json'') \<and>
   parseJson (sample_world tree_ok) ''models/text/foo/model.json'' =
     Inr (sample_model ''org/foo'' ''text'' ''1.0.0'')"
proof -
  have r1: "readFileSync (sample_world tree_no_models) ''models/absent.json'' =
      Inl (SystemError ''ENOENT'')"
    by code_simp
  have r2: "readFileSync (sample_world tree_no_models) ''models/broken.json'' = Inr ''{ not json''"
    by code_simp
  have p2: "JSON_parse (sample_world tree_no_models) ''{ not json'' = None"
    by code_simp
  have r3: "readFileSync (sample_world tree_ok) ''models/text/foo/model.json'' =
      Inr ''foo model 1.0.0''"
    by code_simp
  have p3: "JSON_parse (sample_world tree_ok) ''foo model 1.0.0'' =
      Some (sample_model ''org/foo'' ''text'' ''1.0.0'')"
    by code_simp
  from r1 parseJson_outcomes [of "sample_world tree_no_models" "''models/absent.json''"
      "SystemError ''ENOENT''"]
  have 1: "parseJson (sample_world tree_no_models) ''models/absent.json'' =
     Inl (Error (''invalid_json: '' @ ''models/absent.json''))" by blast
  from r2 p2 parseJson_outcomes [of "sample_world tree_no_models" "''models/broken.json''" _
      "''{ not json''"]
  have 2: "parseJson (sample_world tree_no_models) ''models/broken.json'' =
     Inl (Error (''invalid_json: '' @ ''models/broken.json''))" by blast
  from r3 p3 parseJson_outcomes [of "sample_world tree_ok" "''models/text/foo/model.json''" _
      "''foo model 1.0.0''" "sample_model ''org/foo'' ''text'' ''1.0.0''"]
  have 3: "parseJson (sample_world tree_ok) ''models/text/foo/model.json'' =
     Inr (sample_model ''org/foo'' ''text'' ''1.0.0'')" by blast
  from 1 2 3 show ?thesis by simp
qed

section \<open>Help\<close>

text \<open>
  C10. If \<^verbatim>\<open>--help\<close> or \<^verbatim>\<open>-h\<close> appears anywhere in the argument list, or the list is empty, the
  tool prints the usage text and ends with exit code 0; no command handler runs, so nothing
  else is printed and the file system is as before, even when a command and its flags are
  present too.
\<close>

theorem help_short_circuits:
  "args = [] \<or> ''--help'' \<in> set args \<or> ''-h'' \<in> set args \<Longrightarrow>
   main cmdPublish w args = (\<lparr>stdout = [help_text], stderr = [], exit_code = 0\<rparr>, w)"
  by (simp add: main_def)

theorem help_short_circuits_witness:
  "main no_publish (sample_world (Dir []))
     [''init'', ''model'', ''--modality'', ''text'', ''--slug'', ''demo'', ''--id'', ''org/demo'', ''-h''] =
     (\<lparr>stdout = [help_text], stderr = [], exit_code = 0\<rparr>, sample_world (Dir [])) \<and>
   main no_publish (sample_world tree_ok) [''validate'', ''models'', ''--help''] =
     (\<lparr>stdout = [help_text], stderr = [], exit_code = 0\<rparr>, sample_world tree_ok) \<and>
   main no_publish (sample_world tree_ok) [] =
     (\<lparr>stdout = [help_text], stderr = [], exit_code = 0\<rparr>, sample_world tree_ok)"
proof -
  have "''-h'' \<in> set [''init'', ''model'', ''--modality'', ''text'', ''--slug'', ''demo'', ''--id'',
      ''org/demo'', ''-h'']" by simp
  moreover have "''--help'' \<in> set [''validate'', ''models'', ''--help'']" by simp
  ultimately show ?thesis
    using help_short_circuits [of "[''init'', ''model'', ''--modality'', ''text'', ''--slug'', ''demo'',
        ''--id'', ''org/demo'', ''-h'']" no_publish "sample_world (Dir [])"]
      help_short_circuits [of "[''validate'', ''models'', ''--help'']" no_publish "sample_world tree_ok"]
      help_short_circuits [of "[]" no_publish "sample_world tree_ok"]
    by blast
qed

section \<open>Validation reads only\<close>

text \<open>
  C8. \<^verbatim>\<open>validate models\<close> leaves the file system as it found it, and a second run with the same
  arguments on the state the first run leaves gives the same output and the same exit code.
\<close>

theorem validate_twice_same:
  "snd (main p w (''validate'' # ''models'' # rest)) = w \<and>
   main p (snd (main p w (''validate'' # ''models'' # rest))) (''validate'' # ''models'' # rest) =
     main p w (''validate'' # ''models'' # rest)"
proof (cases "''--help'' \<in> set rest \<or> ''-h'' \<in> set rest")
  case True
  then show ?thesis by (auto simp: main_def)
next
  case False
  then show ?thesis by (simp add: main_validate)
qed

theorem validate_twice_same_witness:
  "fst (main no_publish (sample_world tree_ok) [''validate'', ''models'']) =
     \<lparr>stdout = [''OK: models registry validation passed.''], stderr = [], exit_code = 0\<rparr> \<and>
   fst (main no_publish (snd (main no_publish (sample_world tree_ok) [''validate'', ''models'']))
     [''validate'', ''models'']) =
     \<lparr>stdout = [''OK: models registry validation passed.''], stderr = [], exit_code = 0\<rparr> \<and>
   fst (main no_publish (sample_world tree_version_missing) [''validate'', ''models'']) =
   fst (main no_publish (snd (main no_publish (sample_world tree_version_missing) [''validate'', ''models'']))
     [''validate'', ''models''])"
proof -
  have "fst (main no_publish (sample_world tree_ok) [''validate'', ''models'']) =
     \<lparr>stdout = [''OK: models registry validation passed.''], stderr = [], exit_code = 0\<rparr>"
    by code_simp
  then show ?thesis
    using validate_twice_same [of no_publish "sample_world tree_ok" "[]"]
      validate_twice_same [of no_publish "sample_world tree_version_missing" "[]"]
    by simp
qed

section \<open>An empty registry\<close>

text \<open>
  C7. If the walk of \<^verbatim>\<open><root>/models\<close> yields no path ending in \<^verbatim>\<open>model.json\<close>, then
  \<^verbatim>\<open>validate models\<close> ends with exit code 1 and the message
  \<^verbatim>\<open>no model.json entries found under models/\<close>, whatever the files contain: no file is read.
\<close>

theorem no_model_files_fails:
  assumes "''--help'' \<notin> set args" and "''-h'' \<notin> set args"
    and "argValue args ''--root'' (Some ''.'') = Some root"
    and "walk w (path_join [root, ''models'']) = Inr files"
    and "modelFiles files = []"
  shows "main p w (''validate'' # ''models'' # args) =
    (\<lparr>stdout = [], stderr = [''no model.json entries found under models/''], exit_code = 1\<rparr>, w)"
  using assms by (simp add: main_validate cmdValidateModels_def)

theorem no_model_files_fails_witness:
  "main no_publish (sample_world tree_no_models) [''validate'', ''models''] =
    (\<lparr>stdout = [], stderr = [''no model.json entries found under models/''], exit_code = 1\<rparr>,
     sample_world tree_no_models)"
proof -
  have 1: "argValue [] ''--root'' (Some ''.'') = Some ''.''" by code_simp
  have 2: "walk (sample_world tree_no_models) (path_join [''.'', ''models'']) =
      Inr [''models/README.md'', ''models/broken.json'']"
    by code_simp
  have 3: "modelFiles [''models/README.md'', ''models/broken.json''] = []" by code_simp
  show ?thesis
    by (rule no_model_files_fails [OF _ _ 1 2 3]) simp_all
qed

section \<open>Paths made of plain segments\<close>

lemma split_when_nonempty: "split_when P s \<noteq> []"
  by (induction s) (auto split: list.splits)

lemma split_when_plain: "list_all (\<lambda>c. \<not> P c) s \<Longrightarrow> split_when P s = [s]"
  by (induction s) auto

lemma split_when_append:
  "P sep \<Longrightarrow> split_when P (a @ sep # b) = split_when P a @ split_when P b"
proof (induction a)
  case Nil
  then show ?case by simp
next
  case (Cons c a)
  then show ?case
    using split_when_nonempty [of P a]
    by (cases "split_when P a") auto
qed

lemma join_with_Cons: "xs \<noteq> [] \<Longrightarrow> join_with sep (x # xs) = x @ sep @ join_with sep xs"
  by (cases xs) auto

lemma join_with_snoc: "xs \<noteq> [] \<Longrightarrow> join_with sep (xs @ [x]) = join_with sep xs @ sep @ x"
proof (induction xs)
  case Nil
  then show ?case by simp
next
  case (Cons y ys)
  then show ?case
    by (cases "ys = []") (simp_all add: join_with_Cons)
qed

lemma split_join:
  "xs \<noteq> [] \<Longrightarrow> list_all (list_all (\<lambda>c. \<not> P c)) xs \<Longrightarrow> P c \<Longrightarrow>
   split_when P (join_with [c] xs) = xs"
proof (induction xs)
  case Nil
  then show ?case by simp
next
  case (Cons x xs)
  show ?case
  proof (cases "xs = []")
    case True
    with Cons.prems show ?thesis by (simp add: split_when_plain)
  next
    case False
    with Cons have "split_when P (join_with [c] xs) = xs" by simp
    with False Cons.prems show ?thesis
      by (simp add: join_with_Cons split_when_append split_when_plain)
  qed
qed


lemma plain_no_sep: "plain_segment s \<Longrightarrow> list_all (\<lambda>c. \<not> (is_backslash c \<or> is_slash c)) s"
  by (auto simp: plain_segment_def list_all_iff)

lemma plain_no_backslash: "plain_segment s \<Longrightarrow> list_all (\<lambda>c. \<not> is_backslash c) s"
  by (simp add: plain_segment_def list_all_iff)

lemma foldl_norm_step:
  "list_all plain_segment xs \<Longrightarrow> foldl (norm_step b) acc xs = acc @ xs"
  by (induction xs arbitrary: acc) (auto simp: norm_step_def plain_segment_def)

lemma split_slash_join:
  "xs \<noteq> [] \<Longrightarrow> list_all plain_segment xs \<Longrightarrow> split_when is_slash (join_with ''/'' xs) = xs"
  by (rule split_join) (auto simp: list_all_iff is_slash_def plain_segment_def)


lemma normalizeString_join:
  "xs \<noteq> [] \<Longrightarrow> list_all plain_segment xs \<Longrightarrow> normalizeString (join_with ''/'' xs) b = xs"
  by (simp add: normalizeString_def split_slash_join foldl_norm_step)

lemma resolve_join:
  "xs \<noteq> [] \<Longrightarrow> list_all plain_segment xs \<Longrightarrow> resolve (join_with ''/'' xs) = xs"
  by (simp add: resolve_def normalizeString_join)

lemma join_nonempty:
  "xs \<noteq> [] \<Longrightarrow> list_all plain_segment xs \<Longrightarrow> join_with ''/'' xs \<noteq> []"
  by (cases xs; cases "tl xs") (auto simp: plain_segment_def)

lemma hd_join:
  "xs \<noteq> [] \<Longrightarrow> list_all plain_segment xs \<Longrightarrow> hd (join_with ''/'' xs) = hd (hd xs)"
  by (cases xs; cases "tl xs") (auto simp: plain_segment_def)

lemma last_join:
  "xs \<noteq> [] \<Longrightarrow> list_all plain_segment xs \<Longrightarrow> last (join_with ''/'' xs) = last (last xs)"
proof (induction xs rule: rev_induct)
  case Nil
  then show ?case by simp
next
  case (snoc x xs)
  then show ?case
    by (cases "xs = []") (auto simp: join_with_snoc plain_segment_def)
qed

lemma plain_hd_last:
  "plain_segment s \<Longrightarrow> \<not> is_slash (hd s) \<and> \<not> is_slash (last s)"
proof -
  assume "plain_segment s"
  then have "s \<noteq> []" "\<forall>c \<in> set s. \<not> is_slash c"
    by (simp_all add: plain_segment_def list_all_iff)
  then show ?thesis using hd_in_set [of s] last_in_set [of s] by blast
qed

lemma normalize_join:
  assumes "xs \<noteq> []" and "list_all plain_segment xs"
  shows "normalize (join_with ''/'' xs) = join_with ''/'' xs"
proof -
  have "plain_segment (hd xs)" "plain_segment (last xs)"
    using assms by (auto simp: list_all_iff)
  then have "\<not> is_slash (hd (join_with ''/'' xs))" "\<not> is_slash (last (join_with ''/'' xs))"
    using assms by (simp_all add: hd_join last_join plain_hd_last)
  with assms show ?thesis
    by (simp add: normalize_def normalizeString_join join_nonempty Let_def)
qed

lemma normalize_dot_join:
  assumes "xs \<noteq> []" and "list_all plain_segment xs"
  shows "normalize (join_with ''/'' (''.'' # xs)) = join_with ''/'' xs"
proof -
  have j: "join_with ''/'' (''.'' # xs) = CHR ''.'' # CHR ''/'' # join_with ''/'' xs"
    using assms by (simp add: join_with_Cons)
  have "split_when is_slash (join_with ''/'' (''.'' # xs)) = ''.'' # xs"
    unfolding j using split_slash_join [OF assms]
    by (simp add: is_slash_def)
  then have n: "normalizeString (join_with ''/'' (''.'' # xs)) True = xs"
    using assms by (simp add: normalizeString_def foldl_norm_step norm_step_def)
  have "plain_segment (last xs)" using assms by (auto simp: list_all_iff)
  then have "\<not> is_slash (last (join_with ''/'' xs))"
    using assms by (simp add: last_join plain_hd_last)
  then have l: "\<not> is_slash (last (join_with ''/'' (''.'' # xs)))"
    unfolding j using join_nonempty [OF assms] by simp
  have h: "\<not> is_slash (hd (join_with ''/'' (''.'' # xs)))"
    unfolding j by (simp add: is_slash_def)
  have ne: "join_with ''/'' (''.'' # xs) \<noteq> []" unfolding j by simp
  show ?thesis
    unfolding normalize_def Let_def using ne h l n join_nonempty [OF assms] by simp
qed


lemma path_join_snoc2:
  assumes "xs \<noteq> []" and "list_all plain_segment xs" and "plain_segment s" and "plain_segment t"
  shows "path_join [join_with ''/'' xs, s, t] = join_with ''/'' (xs @ [s, t])"
proof -
  have ne: "join_with ''/'' xs \<noteq> []" "s \<noteq> []" "t \<noteq> []"
    using assms by (simp_all add: join_nonempty plain_segment_def)
  have "join_with ''/'' (xs @ [s, t]) = join_with ''/'' ((xs @ [s]) @ [t])" by simp
  also have "\<dots> = join_with ''/'' (xs @ [s]) @ ''/'' @ t"
    by (rule join_with_snoc) simp
  also have "\<dots> = join_with ''/'' xs @ ''/'' @ s @ ''/'' @ t"
    using assms by (simp add: join_with_snoc)
  finally have "join_with ''/'' [join_with ''/'' xs, s, t] = join_with ''/'' (xs @ [s, t])"
    by simp
  moreover have "normalize (join_with ''/'' (xs @ [s, t])) = join_with ''/'' (xs @ [s, t])"
    using assms by (intro normalize_join) simp_all
  moreover have "join_with ''/'' (xs @ [s, t]) \<noteq> []"
    using assms by (intro join_nonempty) simp_all
  ultimately show ?thesis
    using ne by (simp add: path_join_def Let_def del: join_with.simps)
qed

lemma path_join_dot:
  assumes "xs \<noteq> []" and "list_all plain_segment xs"
  shows "path_join (''.'' # xs) = join_with ''/'' xs"
proof -
  have "filter (\<lambda>p. p \<noteq> []) (''.'' # xs) = ''.'' # xs"
    using assms by (auto simp: list_all_iff plain_segment_def filter_id_conv)
  moreover have "join_with ''/'' (''.'' # xs) \<noteq> []"
    using assms by (simp add: join_with_Cons)
  ultimately show ?thesis
    using normalize_dot_join [OF assms]
    by (simp add: path_join_def Let_def del: join_with.simps)
qed



















section \<open>The checks of one model\<close>










section \<open>The modality folder\<close>



section \<open>The versions of a model\<close>







section \<open>Absolute and relative paths\<close>















section \<open>Trees\<close>
















section \<open>Scaffolding\<close>
















text \<open>
  The limits are felt by the command: a slug of 256 characters is refused by the system, and
  \<^verbatim>\<open>init model\<close> ends with exit code 1 and an unchanged file system.
\<close>

lemma long_slug_refused:
  "exit_code (fst (main no_publish (demo_world ''0.1.0'')
     [''init'', ''model'', ''--modality'', ''text'', ''--slug'', replicate 256 CHR ''a'',
      ''--id'', ''org/demo''])) = 1 \<and>
   fs (snd (main no_publish (demo_world ''0.1.0'')
     [''init'', ''model'', ''--modality'', ''text'', ''--slug'', replicate 256 CHR ''a'',
      ''--id'', ''org/demo''])) = Dir []"
  by code_simp

section \<open>Scaffold, then validate\<close>





end
